theory Spec2Isabelle
  imports Main "HOL-Library.Sublist"
begin

section \<open>The Docker engine of codapi (internal/engine/docker.go)\<close>

text \<open>
  The engine runs one sandbox command: it creates a scratch directory, writes the request
  files into it, and executes an optional setup step, the run steps and an optional cleanup
  step, each of them a \<^verbatim>\<open>docker run\<close> or \<^verbatim>\<open>docker exec\<close> invocation.

  Everything the engine does to the outside world is recorded as an event of a trace, in the
  order in which the code does it. What the outside world answers (the file helpers, the
  process runner, the creation of the scratch directory) is a parameter of the model: an
  environment of functions from the trace so far and the call to the answer, so that the same
  call may be answered differently at different moments. Logging is left out.
\<close>

subsection \<open>Data\<close>

text \<open>
  The configuration structs (config.Box, config.Step, config.Command, config.Config), Request,
  Execution and Files are declared outside docker.go; the records hold the fields docker.go
  reads. Files is an ordered mapping from file name to content.
\<close>

type_synonym files = "(string \<times> string) list"

record box =
  box_Image :: string
  box_Runtime :: string
  box_CPU :: int
  box_Memory :: int
  box_Network :: string
  box_NProc :: int
  box_Writable :: bool
  box_Storage :: string
  box_Volume :: string
  box_Tmpfs :: "string list"
  box_CapAdd :: "string list"
  box_CapDrop :: "string list"
  box_Ulimit :: "string list"
  box_Versions :: "string list"
  box_Files :: "string list"

record step =
  step_Box :: string
  step_Action :: string
  step_Version :: string
  step_Timeout :: int
  step_NOutput :: int
  step_User :: string
  step_Stdin :: bool
  step_Command :: "string list"

record command =
  cmd_Entry :: string
  cmd_Before :: "step option"
  cmd_Steps :: "step list"
  cmd_After :: "step option"

record config =
  Boxes :: "string \<Rightarrow> box option"

record request =
  req_ID :: string
  req_Version :: string
  req_Files :: files

text \<open>
  An error of a collaborator is seen by the engine through two observations only: whether
  errors.As finds an exec.ExitError in it, and its Error() text.
\<close>

datatype raw_error = ExitError string | OtherError string

fun Error :: "raw_error \<Rightarrow> string" where
  "Error (ExitError m) = m"
| "Error (OtherError m) = m"

fun isExitError :: "raw_error \<Rightarrow> bool" where
  "isExitError (ExitError m) = True"
| "isExitError (OtherError m) = False"

text \<open>
  The errors the engine returns: the sentinel ErrTimeout, an error passed on or made by
  fmt.Errorf (a plain error value), and an error wrapped by NewExecutionError with a label.
\<close>

datatype error =
    ErrTimeout
  | Plain raw_error
  | ExecutionError string raw_error

fun isExecutionError :: "error \<Rightarrow> bool" where
  "isExecutionError (ExecutionError label cause) = True"
| "isExecutionError e = False"

record execution =
  ID :: string
  OK :: bool
  Stdout :: string
  Stderr :: string
  Err :: "error option"

datatype panic = NilPointerDereference | IndexOutOfRange

text \<open>The Docker struct: the configuration and the command, a pointer that may be nil.\<close>

record docker =
  cfg :: config
  cmd :: "command option"

subsection \<open>Events and the environment\<close>

datatype event =
    MkdirTemp
  | RemoveAll string
  | WriteFile string string
  | CopyFiles string string
  | Run int int string string "string list"
  | RunStdin int int string string string "string list"
  | ExecyRun nat string "string list"

text \<open>
  \<^item> \<open>MkdirTemp\<close>: os.MkdirTemp("", ""); \<open>RemoveAll dir\<close>: the deferred os.RemoveAll(dir).
  \<^item> \<open>WriteFile path content\<close>: fileio.WriteFile(path, content, 0444).
  \<^item> \<open>CopyFiles pattern dir\<close>: fileio.CopyFiles(pattern, dir).
  \<^item> \<open>Run timeout noutput id name args\<close>: NewProgram(timeout, noutput).Run(id, name, args...);
    \<open>RunStdin timeout noutput stdin id name args\<close>: the same with RunStdin and the bytes of stdin.
  \<^item> \<open>ExecyRun seconds name args\<close>: execy.Run of the command name args under a deadline in
    seconds, started in a goroutine of its own; its result is only logged.
\<close>

record env =
  mkdir_result :: "event list \<Rightarrow> raw_error + string"
  io_result :: "event list \<Rightarrow> event \<Rightarrow> raw_error option"
  run_result :: "event list \<Rightarrow> event \<Rightarrow> string \<times> string \<times> raw_error option"
  Join :: "string \<Rightarrow> string \<Rightarrow> string"
  Sprintf :: "string \<Rightarrow> string \<Rightarrow> string"
  Fail :: "string \<Rightarrow> error \<Rightarrow> execution"

text \<open>
  \<open>Join\<close> is filepath.Join on two elements, \<open>Sprintf\<close> is fmt.Sprintf with a format and one
  string argument, \<open>Fail\<close> is the engine's Fail(id, err), which is declared outside docker.go.
\<close>

definition killTimeout :: nat where
  "killTimeout = 5"

definition actionRun :: string where
  "actionRun = ''run''"

definition actionExec :: string where
  "actionExec = ''exec''"

subsection \<open>Library functions of Go\<close>

text \<open>strconv.Itoa: the decimal text of an integer.\<close>

definition digit :: "nat \<Rightarrow> char" where
  "digit d = ''0123456789'' ! d"

fun digits :: "nat \<Rightarrow> string" where
  "digits n = (if n < 10 then [digit n] else digits (n div 10) @ [digit (n mod 10)])"

declare digits.simps [simp del]

definition Itoa :: "int \<Rightarrow> string" where
  "Itoa i = (if i < 0 then CHR ''-'' # digits (nat (- i)) else digits (nat i))"

text \<open>strings.Replace(s, old, new, 1): the first occurrence of old in s is replaced.\<close>

fun Replace1 :: "string \<Rightarrow> string \<Rightarrow> string \<Rightarrow> string" where
  "Replace1 [] old new = (if old = [] then new else [])"
| "Replace1 (c # cs) old new =
     (if take (length old) (c # cs) = old then new @ drop (length old) (c # cs)
      else c # Replace1 cs old new)"

text \<open>
  Modelled from the spec: Files.Range, a method of the Files type, which is not in
  docker.go. It calls the function on every entry in the order of the mapping and stops
  when the function returns false. The function of writeFiles assigns a variable and calls
  a file helper, so it is given a state and returns the new one.
\<close>

fun Files_Range :: "files \<Rightarrow> (string \<Rightarrow> string \<Rightarrow> 's \<Rightarrow> bool \<times> 's) \<Rightarrow> 's \<Rightarrow> 's" where
  "Files_Range [] f s = s"
| "Files_Range ((name, content) # rest) f s =
     (case f name content s of (ok, s') \<Rightarrow> if ok then Files_Range rest f s' else s')"

subsection \<open>The argument builder\<close>

text \<open>The loops \<^verbatim>\<open>for _, v := range vs { args = append(args, flag, v) }\<close>.\<close>

fun appendEach :: "string \<Rightarrow> string list \<Rightarrow> string list \<Rightarrow> string list" where
  "appendEach flag [] args = args"
| "appendEach flag (v # vs) args = appendEach flag vs (args @ [flag, v])"

definition dockerRunArgs :: "env \<Rightarrow> box \<Rightarrow> step \<Rightarrow> request \<Rightarrow> string \<Rightarrow> string list" where
  "dockerRunArgs env box step req dir =
     (let args = [actionRun, ''--rm'',
                  ''--name'', req_ID req,
                  ''--runtime'', box_Runtime box,
                  ''--cpus'', Itoa (box_CPU box),
                  ''--memory'', Itoa (box_Memory box) @ ''m'',
                  ''--network'', box_Network box,
                  ''--pids-limit'', Itoa (box_NProc box),
                  ''--user'', step_User step];
          args = (if \<not> box_Writable box then args @ [''--read-only''] else args);
          args = (if step_Stdin step then args @ [''--interactive''] else args);
          args = (if box_Storage box \<noteq> ''''
                  then args @ [''--storage-opt'', ''size='' @ box_Storage box] else args);
          args = (if dir \<noteq> ''''
                  then args @ [''--volume'', Sprintf env (box_Volume box) dir] else args);
          args = appendEach ''--tmpfs'' (box_Tmpfs box) args;
          args = appendEach ''--cap-add'' (box_CapAdd box) args;
          args = appendEach ''--cap-drop'' (box_CapDrop box) args;
          args = appendEach ''--ulimit'' (box_Ulimit box) args
      in if step_Version step \<noteq> '''' then args @ [box_Image box @ '':'' @ step_Version step]
         else if req_Version req \<noteq> '''' then args @ [box_Image box @ '':'' @ req_Version req]
         else args @ [box_Image box])"

definition dockerExecArgs :: "step \<Rightarrow> string list" where
  "dockerExecArgs step = [actionExec, ''--interactive'', ''--user'', step_User step, step_Box step]"

definition expandVars :: "string list \<Rightarrow> string \<Rightarrow> string list" where
  "expandVars command name = map (\<lambda>c. Replace1 c '':name'' name) command"

text \<open>
  buildArgs. The box is a pointer: dockerRunArgs reads box.Runtime while it builds its first
  list, which panics on a nil box before anything else happens; dockerExecArgs does not
  read the box.
\<close>

definition buildArgs :: "env \<Rightarrow> box option \<Rightarrow> step \<Rightarrow> request \<Rightarrow> string \<Rightarrow> panic + string list" where
  "buildArgs env box step req dir =
     (if step_Action step = actionRun then
        (case box of
           None \<Rightarrow> Inl NilPointerDereference
         | Some b \<Rightarrow> Inr (dockerRunArgs env b step req dir @ expandVars (step_Command step) (req_ID req)))
      else if step_Action step = actionExec then
        Inr (dockerExecArgs step @ expandVars (step_Command step) (req_ID req))
      else Inr ([''version''] @ expandVars (step_Command step) (req_ID req)))"

subsection \<open>Staging files\<close>

definition validateVersion :: "box option \<Rightarrow> step \<Rightarrow> request \<Rightarrow> panic + error option" where
  "validateVersion box step req =
     (if step_Version step = '''' \<and> req_Version req \<noteq> '''' then
        (case box of
           None \<Rightarrow> Inl NilPointerDereference
         | Some b \<Rightarrow>
             if req_Version req \<notin> set (box_Versions b)
             then Inr (Some (Plain (OtherError
                    (''box '' @ step_Box step @ '' does not support version '' @ req_Version req))))
             else Inr None)
      else Inr None)"

fun copyPatterns :: "env \<Rightarrow> string list \<Rightarrow> string \<Rightarrow> event list \<Rightarrow> raw_error option \<times> event list" where
  "copyPatterns env [] dir tr = (None, tr)"
| "copyPatterns env (pattern # rest) dir tr =
     (case io_result env tr (CopyFiles pattern dir) of
        Some err \<Rightarrow> (Some err, tr @ [CopyFiles pattern dir])
      | None \<Rightarrow> copyPatterns env rest dir (tr @ [CopyFiles pattern dir]))"

definition copyFiles :: "env \<Rightarrow> box option \<Rightarrow> string \<Rightarrow> event list \<Rightarrow> raw_error option \<times> event list" where
  "copyFiles env box dir tr =
     (case box of
        None \<Rightarrow> (None, tr)
      | Some b \<Rightarrow> if box_Files b = [] then (None, tr) else copyPatterns env (box_Files b) dir tr)"

definition writeFile1 :: "env \<Rightarrow> string \<Rightarrow> string \<Rightarrow> string \<Rightarrow> string \<Rightarrow>
    raw_error option \<times> event list \<Rightarrow> bool \<times> raw_error option \<times> event list" where
  "writeFile1 env entry dir name content s =
     (let name = (if name = '''' then entry else name);
          path = Join env dir name;
          err = io_result env (snd s) (WriteFile path content)
      in (err = None, err, snd s @ [WriteFile path content]))"

definition writeFiles :: "env \<Rightarrow> command \<Rightarrow> string \<Rightarrow> files \<Rightarrow> event list \<Rightarrow> raw_error option \<times> event list" where
  "writeFiles env c dir files tr = Files_Range files (writeFile1 env (cmd_Entry c) dir) (None, tr)"

fun filesReader :: "files \<Rightarrow> string" where
  "filesReader [] = []"
| "filesReader ((name, content) # rest) = content @ filesReader rest"

subsection \<open>One step\<close>

definition dockerKill :: "string \<Rightarrow> event" where
  "dockerKill name = ExecyRun killTimeout ''docker'' [''kill'', name]"

definition invocation :: "step \<Rightarrow> request \<Rightarrow> files \<Rightarrow> string list \<Rightarrow> event" where
  "invocation step req files args =
     (if step_Stdin step
      then RunStdin (step_Timeout step) (step_NOutput step) (filesReader files) (req_ID req) ''docker'' args
      else Run (step_Timeout step) (step_NOutput step) (req_ID req) ''docker'' args)"

text \<open>
  exec returns (stdout, stderr, err). The goroutine that kills the container is the event
  \<open>dockerKill\<close>, recorded when it is started; what it assigns and logs is left out.
\<close>

definition exec :: "env \<Rightarrow> box option \<Rightarrow> step \<Rightarrow> request \<Rightarrow> string \<Rightarrow> files \<Rightarrow> event list \<Rightarrow>
    (panic + string \<times> string \<times> error option) \<times> event list" where
  "exec env box step req dir files tr =
     (case buildArgs env box step req dir of
        Inl p \<Rightarrow> (Inl p, tr)
      | Inr args \<Rightarrow>
          (case run_result env tr (invocation step req files args) of
             (stdout, stderr, None) \<Rightarrow>
               (Inr (stdout, stderr, None), tr @ [invocation step req files args])
           | (stdout, stderr, Some err) \<Rightarrow>
               if Error err = ''signal: killed'' then
                 (Inr (stdout, stderr, Some ErrTimeout),
                  tr @ [invocation step req files args]
                     @ (if step_Action step = actionRun then [dockerKill (req_ID req)] else []))
               else if isExitError err then
                 (Inr ('''', stdout @ stderr,
                       Some (if stdout @ stderr \<noteq> ''''
                             then Plain (OtherError ((stdout @ stderr) @ '' ('' @ Error err @ '')''))
                             else Plain err)),
                  tr @ [invocation step req files args])
               else
                 (Inr (stdout, stderr, Some (ExecutionError ''execute code'' err)),
                  tr @ [invocation step req files args])))"

definition execStep :: "env \<Rightarrow> config \<Rightarrow> step \<Rightarrow> request \<Rightarrow> string \<Rightarrow> files \<Rightarrow> event list \<Rightarrow>
    (panic + execution) \<times> event list" where
  "execStep env cf step req dir files tr =
     (case validateVersion (Boxes cf (step_Box step)) step req of
        Inl p \<Rightarrow> (Inl p, tr)
      | Inr (Some err) \<Rightarrow> (Inr (Fail env (req_ID req) err), tr)
      | Inr None \<Rightarrow>
          (case copyFiles env (Boxes cf (step_Box step)) dir tr of
             (Some err, tr1) \<Rightarrow>
               (Inr (Fail env (req_ID req) (ExecutionError ''copy files to temp dir'' err)), tr1)
           | (None, tr1) \<Rightarrow>
               (case exec env (Boxes cf (step_Box step)) step req dir files tr1 of
                  (Inl p, tr2) \<Rightarrow> (Inl p, tr2)
                | (Inr (stdout, stderr, Some err), tr2) \<Rightarrow> (Inr (Fail env (req_ID req) err), tr2)
                | (Inr (stdout, stderr, None), tr2) \<Rightarrow>
                    (Inr \<lparr>ID = req_ID req, OK = True, Stdout = stdout, Stderr = stderr, Err = None\<rparr>,
                     tr2))))"

subsection \<open>The pipeline\<close>

text \<open>The loop over the steps after the first: it stops at the first step that is not OK.\<close>

fun execRest :: "env \<Rightarrow> config \<Rightarrow> step list \<Rightarrow> request \<Rightarrow> string \<Rightarrow> execution \<Rightarrow> event list \<Rightarrow>
    (panic + execution) \<times> event list" where
  "execRest env cf [] req dir out tr = (Inr out, tr)"
| "execRest env cf (s # rest) req dir out tr =
     (case execStep env cf s req dir [] tr of
        (Inl p, tr') \<Rightarrow> (Inl p, tr')
      | (Inr out', tr') \<Rightarrow>
          if \<not> OK out' then (Inr out', tr') else execRest env cf rest req dir out' tr')"

text \<open>Lines 72 to 86: the first step gets the request files, the others get none.\<close>

definition execSteps :: "env \<Rightarrow> config \<Rightarrow> command \<Rightarrow> request \<Rightarrow> string \<Rightarrow> event list \<Rightarrow>
    (panic + execution) \<times> event list" where
  "execSteps env cf c req dir tr =
     (case cmd_Steps c of
        [] \<Rightarrow> (Inl IndexOutOfRange, tr)
      | first # rest \<Rightarrow>
          (case execStep env cf first req dir (req_Files req) tr of
             (Inl p, tr') \<Rightarrow> (Inl p, tr')
           | (Inr out, tr') \<Rightarrow>
               if OK out \<and> length rest > 0 then execRest env cf rest req dir out tr'
               else (Inr out, tr')))"

text \<open>Lines 88 to 96: the cleanup step and the result of the pipeline.\<close>

definition execAfter :: "env \<Rightarrow> config \<Rightarrow> command \<Rightarrow> request \<Rightarrow> string \<Rightarrow> execution \<Rightarrow> event list \<Rightarrow>
    (panic + execution) \<times> event list" where
  "execAfter env cf c req dir out tr =
     (case cmd_After c of
        None \<Rightarrow> (Inr out, tr)
      | Some afterStep \<Rightarrow>
          (case execStep env cf afterStep req dir [] tr of
             (Inl p, tr') \<Rightarrow> (Inl p, tr')
           | (Inr afterOut, tr') \<Rightarrow>
               if OK out \<and> \<not> OK afterOut then (Inr afterOut, tr') else (Inr out, tr')))"

text \<open>Lines 64 to 96: the setup step, the run steps and the cleanup step.\<close>

definition execPipeline :: "env \<Rightarrow> config \<Rightarrow> command \<Rightarrow> request \<Rightarrow> string \<Rightarrow> event list \<Rightarrow>
    (panic + execution) \<times> event list" where
  "execPipeline env cf c req dir tr =
     (case (case cmd_Before c of
              None \<Rightarrow> (Inr None, tr)
            | Some beforeStep \<Rightarrow>
                (case execStep env cf beforeStep req dir [] tr of
                   (Inl p, tr') \<Rightarrow> (Inl p, tr')
                 | (Inr out, tr') \<Rightarrow> if \<not> OK out then (Inr (Some out), tr') else (Inr None, tr')))
      of
        (Inl p, tr') \<Rightarrow> (Inl p, tr')
      | (Inr (Some out), tr') \<Rightarrow> (Inr out, tr')
      | (Inr None, tr') \<Rightarrow>
          (case execSteps env cf c req dir tr' of
             (Inl p, tr'') \<Rightarrow> (Inl p, tr'')
           | (Inr out, tr'') \<Rightarrow> execAfter env cf c req dir out tr''))"

text \<open>
  Lines 53 to 62 and the rest of Exec, in the scratch directory dir. A nil command panics
  where e.cmd.Entry is read.
\<close>

definition execInDir :: "env \<Rightarrow> docker \<Rightarrow> request \<Rightarrow> string \<Rightarrow> event list \<Rightarrow>
    (panic + execution) \<times> event list" where
  "execInDir env e req dir tr =
     (case cmd e of
        None \<Rightarrow> (Inl NilPointerDereference, tr)
      | Some c \<Rightarrow>
          if cmd_Entry c \<noteq> '''' then
            (case writeFiles env c dir (req_Files req) tr of
               (Some err, tr') \<Rightarrow>
                 (Inr (Fail env (req_ID req) (ExecutionError ''write files to temp dir'' err)), tr')
             | (None, tr') \<Rightarrow> execPipeline env (cfg e) c req dir tr')
          else execPipeline env (cfg e) c req dir tr)"

text \<open>
  Exec: the scratch directory is made first; the deferred removal runs on every way out of
  the function once the directory exists, a panic included.
\<close>

definition Exec :: "env \<Rightarrow> docker \<Rightarrow> request \<Rightarrow> event list \<Rightarrow> (panic + execution) \<times> event list" where
  "Exec env e req tr =
     (case mkdir_result env tr of
        Inl err \<Rightarrow> (Inr (Fail env (req_ID req) (ExecutionError ''create temp dir'' err)), tr @ [MkdirTemp])
      | Inr dir \<Rightarrow>
          (case execInDir env e req dir (tr @ [MkdirTemp]) of
             (res, tr') \<Rightarrow> (res, tr' @ [RemoveAll dir])))"

subsection \<open>Reading a trace\<close>

fun isExecyRun :: "event \<Rightarrow> bool" where
  "isExecyRun (ExecyRun t name args) = True"
| "isExecyRun e = False"

fun isCopyFiles :: "event \<Rightarrow> bool" where
  "isCopyFiles (CopyFiles pattern dir) = True"
| "isCopyFiles e = False"

fun isWriteFile :: "event \<Rightarrow> bool" where
  "isWriteFile (WriteFile path content) = True"
| "isWriteFile e = False"

subsection \<open>A sample configuration\<close>

text \<open>
  A box, two steps, a request and an environment in which every file operation succeeds
  and the process runner answers as the function r says. They are the concrete inputs at
  which the theorems below are instantiated.
\<close>

definition python_box :: box where
  "python_box = \<lparr>box_Image = ''codapi/python'', box_Runtime = ''runc'', box_CPU = 1,
     box_Memory = 64, box_Network = ''none'', box_NProc = 64, box_Writable = False,
     box_Storage = '''', box_Volume = ''%s:/sandbox:ro'', box_Tmpfs = [''/tmp:rw''],
     box_CapAdd = [], box_CapDrop = [''all''], box_Ulimit = [''nofile=96''],
     box_Versions = [''1.0'', ''2.0''], box_Files = [''/opt/boxes/python/*'']\<rparr>"

definition run_step :: step where
  "run_step = \<lparr>step_Box = ''python'', step_Action = ''run'', step_Version = '''',
     step_Timeout = 1, step_NOutput = 4096, step_User = ''sandbox'', step_Stdin = False,
     step_Command = [''python'', ''main.py'']\<rparr>"

definition exec_step :: step where
  "exec_step = \<lparr>step_Box = ''postgres'', step_Action = ''exec'', step_Version = '''',
     step_Timeout = 1, step_NOutput = 4096, step_User = ''sandbox'', step_Stdin = True,
     step_Command = [''psql'', ''--user=:name'']\<rparr>"

definition sample_cfg :: config where
  "sample_cfg = \<lparr>Boxes = [''python'' \<mapsto> python_box]\<rparr>"

definition sampleFail :: "string \<Rightarrow> error \<Rightarrow> execution" where
  "sampleFail name err = \<lparr>ID = name, OK = False, Stdout = '''', Stderr = '''', Err = Some err\<rparr>"

definition sample_env :: "(event list \<Rightarrow> event \<Rightarrow> string \<times> string \<times> raw_error option) \<Rightarrow> env" where
  "sample_env r = \<lparr>mkdir_result = (\<lambda>tr. Inr ''/tmp/x''), io_result = (\<lambda>tr ev. None),
     run_result = r, Join = (\<lambda>dir name. dir @ ''/'' @ name),
     Sprintf = (\<lambda>format arg. Replace1 format ''%s'' arg), Fail = sampleFail\<rparr>"

definition sample_req :: "string \<Rightarrow> request" where
  "sample_req v = \<lparr>req_ID = ''abc123'', req_Version = v, req_Files = [('''', ''print(1)'')]\<rparr>"

subsection \<open>Reading what the file stager wrote\<close>

text \<open>The paths of the files written, in the order of the trace.\<close>

fun writtenPaths :: "event list \<Rightarrow> string list" where
  "writtenPaths [] = []"
| "writtenPaths (WriteFile path content # es) = path # writtenPaths es"
| "writtenPaths (e # es) = writtenPaths es"

text \<open>The event of writing one entry of the file collection (lines 156 to 160).\<close>

definition stagedWrite :: "env \<Rightarrow> command \<Rightarrow> string \<Rightarrow> string \<times> string \<Rightarrow> event" where
  "stagedWrite env c dir entry =
     WriteFile (Join env dir (if fst entry = '''' then cmd_Entry c else fst entry)) (snd entry)"

text \<open>A command with the entry point main.py and one run step.\<close>

definition entry_cmd :: command where
  "entry_cmd = \<lparr>cmd_Entry = ''main.py'', cmd_Before = None, cmd_Steps = [run_step], cmd_After = None\<rparr>"

section \<open>Properties\<close>

subsection \<open>What the file helpers add to the trace\<close>

lemma copyPatterns_trace:
  "\<exists>evs. snd (copyPatterns env ps dir tr) = tr @ evs \<and> (\<forall>e \<in> set evs. isCopyFiles e)"
proof (induction ps arbitrary: tr)
  case Nil
  show ?case by simp
next
  case (Cons p ps)
  show ?case
  proof (cases "io_result env tr (CopyFiles p dir)")
    case None
    obtain evs where "snd (copyPatterns env ps dir (tr @ [CopyFiles p dir])) = (tr @ [CopyFiles p dir]) @ evs"
      and "\<forall>e \<in> set evs. isCopyFiles e"
      using Cons.IH by blast
    then show ?thesis using None
      by (intro exI [of _ "CopyFiles p dir # evs"]) simp
  next
    case (Some err)
    then show ?thesis by (intro exI [of _ "[CopyFiles p dir]"]) simp
  qed
qed

lemma copyFiles_trace:
  "\<exists>evs. snd (copyFiles env box dir tr) = tr @ evs \<and> (\<forall>e \<in> set evs. isCopyFiles e)"
proof (cases box)
  case None
  then show ?thesis by (simp add: copyFiles_def)
next
  case (Some b)
  then show ?thesis using copyPatterns_trace [of env "box_Files b" dir tr]
    by (simp add: copyFiles_def)
qed

subsection \<open>Classification of the outcome of a step\<close>

text \<open>
  C1. When the process runner answers with the error of a killed process (its text is
  "signal: killed"), exec returns ErrTimeout and the step is Fail(id, ErrTimeout). The step
  started after the box files were copied (trace tr1); what it adds is the invocation and,
  exactly when the action is "run", one \<^verbatim>\<open>docker kill id\<close>. For any other action, "exec"
  included, no kill is started and the result is the same.
\<close>

theorem exec_timeout_kills_run_container_only:
  assumes "validateVersion (Boxes cf (step_Box step)) step req = Inr None"
    and "copyFiles env (Boxes cf (step_Box step)) dir tr = (None, tr1)"
    and "buildArgs env (Boxes cf (step_Box step)) step req dir = Inr args"
    and "run_result env tr1 (invocation step req files args) = (stdout, stderr, Some err)"
    and "Error err = ''signal: killed''"
  shows "fst (exec env (Boxes cf (step_Box step)) step req dir files tr1)
           = Inr (stdout, stderr, Some ErrTimeout)
       \<and> execStep env cf step req dir files tr =
           (Inr (Fail env (req_ID req) ErrTimeout),
            tr1 @ [invocation step req files args]
                @ (if step_Action step = ''run''
                   then [ExecyRun killTimeout ''docker'' [''kill'', req_ID req]] else []))
       \<and> filter isExecyRun (drop (length tr) (snd (execStep env cf step req dir files tr)))
           = (if step_Action step = ''run''
              then [ExecyRun killTimeout ''docker'' [''kill'', req_ID req]] else [])"
proof -
  have ex: "exec env (Boxes cf (step_Box step)) step req dir files tr1
      = (Inr (stdout, stderr, Some ErrTimeout),
         tr1 @ [invocation step req files args]
             @ (if step_Action step = ''run''
                then [ExecyRun killTimeout ''docker'' [''kill'', req_ID req]] else []))"
    using assms by (simp add: exec_def actionRun_def dockerKill_def)
  have st: "execStep env cf step req dir files tr =
           (Inr (Fail env (req_ID req) ErrTimeout),
            tr1 @ [invocation step req files args]
                @ (if step_Action step = ''run''
                   then [ExecyRun killTimeout ''docker'' [''kill'', req_ID req]] else []))"
    using assms(1,2) ex by (simp add: execStep_def)
  obtain evs where evs: "tr1 = tr @ evs" "\<forall>e \<in> set evs. isCopyFiles e"
    using copyFiles_trace [of env "Boxes cf (step_Box step)" dir tr] assms(2) by auto
  have nk: "filter isExecyRun evs = []"
    using evs(2) by (induction evs) (auto elim: isCopyFiles.elims)
  have inv: "\<not> isExecyRun (invocation step req files args)"
    by (simp add: invocation_def)
  show ?thesis using ex st evs(1) nk inv by simp
qed

theorem exec_timeout_kills_run_container_only_witness:
  "execStep (sample_env (\<lambda>tr ev. ('''', '''', Some (ExitError ''signal: killed''))))
      sample_cfg run_step (sample_req '''') ''/tmp/x'' [] []
     = (Inr (sampleFail ''abc123'' ErrTimeout),
        [CopyFiles ''/opt/boxes/python/*'' ''/tmp/x'',
         invocation run_step (sample_req '''') []
           (dockerRunArgs (sample_env (\<lambda>tr ev. ('''', '''', Some (ExitError ''signal: killed''))))
              python_box run_step (sample_req '''') ''/tmp/x'' @ [''python'', ''main.py'']),
         ExecyRun 5 ''docker'' [''kill'', ''abc123'']])"
proof -
  let ?env = "sample_env (\<lambda>tr ev. ('''', '''', Some (ExitError ''signal: killed'')))"
  let ?box = "Boxes sample_cfg (step_Box run_step)"
  let ?args = "dockerRunArgs ?env python_box run_step (sample_req '''') ''/tmp/x''
                 @ expandVars (step_Command run_step) (req_ID (sample_req ''''))"
  let ?tr1 = "[CopyFiles ''/opt/boxes/python/*'' ''/tmp/x'']"
  have v: "validateVersion ?box run_step (sample_req '''') = Inr None"
    by (simp add: validateVersion_def sample_req_def)
  have c: "copyFiles ?env ?box ''/tmp/x'' [] = (None, ?tr1)"
    by (simp add: copyFiles_def sample_cfg_def run_step_def python_box_def sample_env_def)
  have a: "buildArgs ?env ?box run_step (sample_req '''') ''/tmp/x'' = Inr ?args"
    by (simp add: buildArgs_def run_step_def actionRun_def sample_cfg_def)
  have b: "run_result ?env ?tr1 (invocation run_step (sample_req '''') [] ?args)
             = ('''', '''', Some (ExitError ''signal: killed''))"
    by (simp add: sample_env_def)
  have k: "Error (ExitError ''signal: killed'') = ''signal: killed''"
    by simp
  have x: "expandVars (step_Command run_step) (req_ID (sample_req '''')) = [''python'', ''main.py'']"
    by (simp add: expandVars_def run_step_def)
  show ?thesis
    using exec_timeout_kills_run_container_only [OF v c a b k] x
    by (simp add: sample_env_def sample_req_def run_step_def killTimeout_def)
qed

text \<open>
  C3. When the process runner answers with an exit error that is not the error of a killed
  process, exec returns an empty stdout, stdout followed by stderr as stderr, and a plain
  error: the exit error itself when the combined output is empty, else a new error whose
  text is the combined output followed by the text of the exit error in parentheses. The
  error is neither an ExecutionError nor ErrTimeout, and the step is Fail(id, that error).
\<close>

theorem exec_nonzero_exit_combines_output:
  assumes "validateVersion (Boxes cf (step_Box step)) step req = Inr None"
    and "copyFiles env (Boxes cf (step_Box step)) dir tr = (None, tr1)"
    and "buildArgs env (Boxes cf (step_Box step)) step req dir = Inr args"
    and "run_result env tr1 (invocation step req files args) = (stdout, stderr, Some err)"
    and "Error err \<noteq> ''signal: killed''"
    and "isExitError err"
    and "e = (if stdout @ stderr = '''' then err
              else OtherError ((stdout @ stderr) @ '' ('' @ Error err @ '')''))"
  shows "fst (exec env (Boxes cf (step_Box step)) step req dir files tr1)
           = Inr ('''', stdout @ stderr, Some (Plain e))
       \<and> \<not> isExecutionError (Plain e) \<and> Plain e \<noteq> ErrTimeout
       \<and> fst (execStep env cf step req dir files tr) = Inr (Fail env (req_ID req) (Plain e))"
  using assms by (simp add: exec_def execStep_def)

theorem exec_nonzero_exit_combines_output_witness:
  "fst (exec (sample_env (\<lambda>tr ev. ('''', ''boom'', Some (ExitError ''exit status 1''))))
         (Boxes sample_cfg (step_Box run_step)) run_step (sample_req '''') ''/tmp/x'' []
         [CopyFiles ''/opt/boxes/python/*'' ''/tmp/x''])
     = Inr ('''', ''boom'', Some (Plain (OtherError ''boom (exit status 1)'')))
   \<and> fst (execStep (sample_env (\<lambda>tr ev. ('''', ''boom'', Some (ExitError ''exit status 1''))))
         sample_cfg run_step (sample_req '''') ''/tmp/x'' [] [])
     = Inr (sampleFail ''abc123'' (Plain (OtherError ''boom (exit status 1)'')))"
proof -
  let ?env = "sample_env (\<lambda>tr ev. ('''', ''boom'', Some (ExitError ''exit status 1'')))"
  let ?box = "Boxes sample_cfg (step_Box run_step)"
  let ?args = "dockerRunArgs ?env python_box run_step (sample_req '''') ''/tmp/x''
                 @ expandVars (step_Command run_step) (req_ID (sample_req ''''))"
  let ?tr1 = "[CopyFiles ''/opt/boxes/python/*'' ''/tmp/x'']"
  have v: "validateVersion ?box run_step (sample_req '''') = Inr None"
    by (simp add: validateVersion_def sample_req_def)
  have c: "copyFiles ?env ?box ''/tmp/x'' [] = (None, ?tr1)"
    by (simp add: copyFiles_def sample_cfg_def run_step_def python_box_def sample_env_def)
  have a: "buildArgs ?env ?box run_step (sample_req '''') ''/tmp/x'' = Inr ?args"
    by (simp add: buildArgs_def run_step_def actionRun_def sample_cfg_def)
  have b: "run_result ?env ?tr1 (invocation run_step (sample_req '''') [] ?args)
             = ('''', ''boom'', Some (ExitError ''exit status 1''))"
    by (simp add: sample_env_def)
  show ?thesis
    using exec_nonzero_exit_combines_output [OF v c a b, of "OtherError ''boom (exit status 1)''"]
    by (simp add: sample_env_def sample_req_def)
qed

text \<open>
  C10. For an exit error that is not the error of a killed process: when stdout and stderr
  are both empty, exec returns the exit error as it is; when they are not, it returns a new
  error, different from the exit error, whose text is the combined output followed by the
  text of the exit error in parentheses.
\<close>

theorem exec_exit_error_unmodified_when_no_output:
  assumes "buildArgs env box step req dir = Inr args"
    and "run_result env tr (invocation step req files args) = (stdout, stderr, Some err)"
    and "Error err \<noteq> ''signal: killed''"
    and "isExitError err"
  shows "(stdout @ stderr = '''' \<longrightarrow>
            fst (exec env box step req dir files tr) = Inr ('''', '''', Some (Plain err)))
       \<and> (stdout @ stderr \<noteq> '''' \<longrightarrow>
            fst (exec env box step req dir files tr) =
              Inr ('''', stdout @ stderr,
                   Some (Plain (OtherError ((stdout @ stderr) @ '' ('' @ Error err @ '')''))))
            \<and> Plain (OtherError ((stdout @ stderr) @ '' ('' @ Error err @ '')'')) \<noteq> Plain err)"
  using assms by (cases err) (simp_all add: exec_def)

theorem exec_exit_error_unmodified_when_no_output_witness:
  "fst (exec (sample_env (\<lambda>tr ev. ('''', '''', Some (ExitError ''exit status 1''))))
         (Some python_box) run_step (sample_req '''') ''/tmp/x'' [] [])
     = Inr ('''', '''', Some (Plain (ExitError ''exit status 1'')))"
proof -
  let ?env = "sample_env (\<lambda>tr ev. ('''', '''', Some (ExitError ''exit status 1'')))"
  let ?args = "dockerRunArgs ?env python_box run_step (sample_req '''') ''/tmp/x''
                 @ expandVars (step_Command run_step) (req_ID (sample_req ''''))"
  have a: "buildArgs ?env (Some python_box) run_step (sample_req '''') ''/tmp/x'' = Inr ?args"
    by (simp add: buildArgs_def run_step_def actionRun_def)
  have b: "run_result ?env [] (invocation run_step (sample_req '''') [] ?args)
             = ('''', '''', Some (ExitError ''exit status 1''))"
    by (simp add: sample_env_def)
  show ?thesis
    using exec_exit_error_unmodified_when_no_output [OF a b] by simp
qed

subsection \<open>The arguments of docker run\<close>

lemma appendEach_eq: "appendEach flag vs args = args @ concat (map (\<lambda>v. [flag, v]) vs)"
  by (induction vs arbitrary: args) auto

lemma set_concat_pairs:
  "set (concat (map (\<lambda>v. [flag, v]) vs)) = (if vs = [] then {} else {flag}) \<union> set vs"
  by (induction vs) auto

lemma digits_chars: "set (digits n) \<subseteq> set ''0123456789''"
proof (induction n rule: digits.induct)
  case (1 n)
  have d: "digit k \<in> set ''0123456789''" if "k < 10" for k
  proof -
    have "''0123456789'' ! k \<in> set ''0123456789''"
      using that by (intro nth_mem) simp
    then show ?thesis by (simp add: digit_def)
  qed
  show ?case
  proof (cases "n < 10")
    case True
    then show ?thesis using d [of n] by (subst digits.simps) simp
  next
    case False
    then show ?thesis using 1 d [of "n mod 10"] by (subst digits.simps) simp
  qed
qed

lemma Itoa_not_flag: "Itoa i \<noteq> ''--read-only''"
proof
  assume eq: "Itoa i = ''--read-only''"
  show False
  proof (cases "i < 0")
    case True
    then have "digits (nat (- i)) = ''-read-only''" using eq by (simp add: Itoa_def)
    then have "CHR ''-'' \<in> set (digits (nat (- i)))" by simp
    then show False using digits_chars [of "nat (- i)"] by auto
  next
    case False
    then have "digits (nat i) = ''--read-only''" using eq by (simp add: Itoa_def)
    then have "CHR ''-'' \<in> set (digits (nat i))" by simp
    then show False using digits_chars [of "nat i"] by auto
  qed
qed

lemma memory_not_flag: "s @ ''m'' \<noteq> ''--read-only''"
proof
  assume "s @ ''m'' = ''--read-only''"
  then have "last (s @ ''m'') = last ''--read-only''" by simp
  then show False by simp
qed

lemma tagged_not_flag: "img @ '':'' @ v \<noteq> ''--read-only''"
proof
  assume eq: "img @ '':'' @ v = ''--read-only''"
  have "CHR '':'' \<in> set (img @ '':'' @ v)" by simp
  then have "CHR '':'' \<in> set ''--read-only''" by (simp only: eq)
  then show False by simp
qed

lemma if_append_right: "(if c then xs @ ys else xs) = xs @ (if c then ys else [])"
  by simp

lemma if_append_last:
  "(if a then xs @ [x] else if b then xs @ [y] else xs @ [z])
     = xs @ [if a then x else if b then y else z]"
  by simp

text \<open>The list dockerRunArgs builds, written as one concatenation.\<close>

lemma dockerRunArgs_shape:
  "dockerRunArgs env box step req dir =
     [''run'', ''--rm'', ''--name'', req_ID req, ''--runtime'', box_Runtime box,
      ''--cpus'', Itoa (box_CPU box), ''--memory'', Itoa (box_Memory box) @ ''m'',
      ''--network'', box_Network box, ''--pids-limit'', Itoa (box_NProc box),
      ''--user'', step_User step]
     @ (if \<not> box_Writable box then [''--read-only''] else [])
     @ (if step_Stdin step then [''--interactive''] else [])
     @ (if box_Storage box \<noteq> '''' then [''--storage-opt'', ''size='' @ box_Storage box] else [])
     @ (if dir \<noteq> '''' then [''--volume'', Sprintf env (box_Volume box) dir] else [])
     @ concat (map (\<lambda>v. [''--tmpfs'', v]) (box_Tmpfs box))
     @ concat (map (\<lambda>v. [''--cap-add'', v]) (box_CapAdd box))
     @ concat (map (\<lambda>v. [''--cap-drop'', v]) (box_CapDrop box))
     @ concat (map (\<lambda>v. [''--ulimit'', v]) (box_Ulimit box))
     @ [if step_Version step \<noteq> '''' then box_Image box @ '':'' @ step_Version step
        else if req_Version req \<noteq> '''' then box_Image box @ '':'' @ req_Version req
        else box_Image box]"
  unfolding dockerRunArgs_def Let_def appendEach_eq if_append_right if_append_last actionRun_def
  by (simp only: append_assoc)

lemma dockerRunArgs_last:
  "last (dockerRunArgs env box step req dir) =
     (if step_Version step \<noteq> '''' then box_Image box @ '':'' @ step_Version step
      else if req_Version req \<noteq> '''' then box_Image box @ '':'' @ req_Version req
      else box_Image box)"
  by (simp only: dockerRunArgs_shape append_assoc [symmetric] last_snoc)

lemma dockerRunArgs_take:
  "take 16 (dockerRunArgs env box step req dir) =
     [''run'', ''--rm'', ''--name'', req_ID req, ''--runtime'', box_Runtime box,
      ''--cpus'', Itoa (box_CPU box), ''--memory'', Itoa (box_Memory box) @ ''m'',
      ''--network'', box_Network box, ''--pids-limit'', Itoa (box_NProc box),
      ''--user'', step_User step]"
  by (subst dockerRunArgs_shape) (simp only: take_append, simp)

lemma dockerRunArgs_drop:
  "drop 16 (dockerRunArgs env box step req dir) =
     (if box_Writable box then [] else [''--read-only''])
     @ drop 16 (dockerRunArgs env (box\<lparr>box_Writable := True\<rparr>) step req dir)"
  by (simp add: dockerRunArgs_shape split del: if_split cong: if_cong) simp

lemma dockerRunArgs_flag:
  "(''--read-only'' \<in> set (dockerRunArgs env box step req dir)) =
     (\<not> box_Writable box \<or>
      ''--read-only'' \<in> {req_ID req, box_Runtime box, box_Network box, step_User step}
         \<union> (if dir \<noteq> '''' then {Sprintf env (box_Volume box) dir} else {})
         \<union> set (box_Tmpfs box) \<union> set (box_CapAdd box) \<union> set (box_CapDrop box)
         \<union> set (box_Ulimit box)
         \<union> (if step_Version step = '''' \<and> req_Version req = '''' then {box_Image box} else {}))"
  using Itoa_not_flag [of "box_CPU box"] Itoa_not_flag [of "box_NProc box"]
    memory_not_flag [of "Itoa (box_Memory box)"]
    tagged_not_flag [of "box_Image box" "step_Version step"]
    tagged_not_flag [of "box_Image box" "req_Version req"]
  by (simp add: dockerRunArgs_shape set_concat_pairs) blast

text \<open>
  C6. The last argument dockerRunArgs builds is the image reference: the image tagged with
  the version of the step when the step has one, else tagged with the version of the
  request when the request has one, else the image of the box without a tag. The first
  sixteen arguments are the options from \<^verbatim>\<open>run --rm --name\<close> to \<^verbatim>\<open>--user\<close>, each with its
  value. What follows them is \<^verbatim>\<open>--read-only\<close>, when the box is not writable, and then exactly
  what follows them for the same box made writable. So the text \<^verbatim>\<open>--read-only\<close> is among the
  arguments exactly when the box is not writable or a value taken from the request or
  the configuration is itself that text.
\<close>

theorem dockerRunArgs_image_and_read_only:
  "last (dockerRunArgs env box step req dir) =
     (if step_Version step \<noteq> '''' then box_Image box @ '':'' @ step_Version step
      else if req_Version req \<noteq> '''' then box_Image box @ '':'' @ req_Version req
      else box_Image box)
   \<and> take 16 (dockerRunArgs env box step req dir) =
     [''run'', ''--rm'', ''--name'', req_ID req, ''--runtime'', box_Runtime box,
      ''--cpus'', Itoa (box_CPU box), ''--memory'', Itoa (box_Memory box) @ ''m'',
      ''--network'', box_Network box, ''--pids-limit'', Itoa (box_NProc box),
      ''--user'', step_User step]
   \<and> drop 16 (dockerRunArgs env box step req dir) =
     (if box_Writable box then [] else [''--read-only''])
     @ drop 16 (dockerRunArgs env (box\<lparr>box_Writable := True\<rparr>) step req dir)
   \<and> (''--read-only'' \<in> set (dockerRunArgs env box step req dir)) =
     (\<not> box_Writable box \<or>
      ''--read-only'' \<in> {req_ID req, box_Runtime box, box_Network box, step_User step}
         \<union> (if dir \<noteq> '''' then {Sprintf env (box_Volume box) dir} else {})
         \<union> set (box_Tmpfs box) \<union> set (box_CapAdd box) \<union> set (box_CapDrop box)
         \<union> set (box_Ulimit box)
         \<union> (if step_Version step = '''' \<and> req_Version req = '''' then {box_Image box} else {}))"
  using dockerRunArgs_last [of env box step req dir] dockerRunArgs_take [of env box step req dir]
    dockerRunArgs_drop [of env box step req dir] dockerRunArgs_flag [of env box step req dir]
  by (simp only: simp_thms)

theorem dockerRunArgs_image_and_read_only_witness:
  "last (dockerRunArgs (sample_env (\<lambda>tr ev. ('''', '''', None)))
           python_box run_step (sample_req ''2.0'') ''/tmp/x'') = ''codapi/python:2.0''
   \<and> ''--read-only'' \<in> set (dockerRunArgs (sample_env (\<lambda>tr ev. ('''', '''', None)))
           python_box run_step (sample_req ''2.0'') ''/tmp/x'')
   \<and> ''--read-only'' \<notin> set (dockerRunArgs (sample_env (\<lambda>tr ev. ('''', '''', None)))
           (python_box\<lparr>box_Writable := True\<rparr>) run_step (sample_req ''2.0'') ''/tmp/x'')"
  using dockerRunArgs_image_and_read_only [of "sample_env (\<lambda>tr ev. ('''', '''', None))"
      python_box run_step "sample_req ''2.0''" "''/tmp/x''"]
    dockerRunArgs_image_and_read_only [of "sample_env (\<lambda>tr ev. ('''', '''', None))"
      "python_box\<lparr>box_Writable := True\<rparr>" run_step "sample_req ''2.0''" "''/tmp/x''"]
  by (simp add: python_box_def run_step_def sample_req_def sample_env_def)

subsection \<open>The file stager\<close>

lemma Files_Range_writeFile1:
  "\<exists>k \<le> length files.
      snd (Files_Range files (writeFile1 env (cmd_Entry c) dir) (e0, tr))
        = tr @ map (stagedWrite env c dir) (take k files)
    \<and> (fst (Files_Range files (writeFile1 env (cmd_Entry c) dir) (e0, tr)) = None \<longrightarrow> e0 = None \<longrightarrow>
         k = length files)"
proof (induction files arbitrary: e0 tr)
  case Nil
  show ?case by simp
next
  case (Cons f files)
  obtain name content where f: "f = (name, content)" by (cases f)
  let ?ev = "stagedWrite env c dir f"
  show ?case
  proof (cases "io_result env tr ?ev")
    case None
    then have step: "Files_Range (f # files) (writeFile1 env (cmd_Entry c) dir) (e0, tr)
        = Files_Range files (writeFile1 env (cmd_Entry c) dir) (None, tr @ [?ev])"
      by (cases "name = []") (simp_all add: f writeFile1_def stagedWrite_def Let_def)
    obtain k where k: "k \<le> length files"
        "snd (Files_Range files (writeFile1 env (cmd_Entry c) dir) (None, tr @ [?ev]))
           = (tr @ [?ev]) @ map (stagedWrite env c dir) (take k files)"
        "fst (Files_Range files (writeFile1 env (cmd_Entry c) dir) (None, tr @ [?ev])) = None \<longrightarrow>
           k = length files"
      using Cons.IH [of None "tr @ [?ev]"] by auto
    show ?thesis
      using k step by (intro exI [of _ "Suc k"]) simp
  next
    case (Some err)
    then have "Files_Range (f # files) (writeFile1 env (cmd_Entry c) dir) (e0, tr)
        = (Some err, tr @ [?ev])"
      by (cases "name = []") (simp_all add: f writeFile1_def stagedWrite_def Let_def)
    then show ?thesis by (intro exI [of _ "Suc 0"]) simp
  qed
qed

lemma writeFiles_trace:
  "\<exists>k \<le> length files.
      snd (writeFiles env c dir files tr) = tr @ map (stagedWrite env c dir) (take k files)
    \<and> (fst (writeFiles env c dir files tr) = None \<longrightarrow> k = length files)"
  using Files_Range_writeFile1 [of files env c dir None tr] by (simp add: writeFiles_def)

lemma filesReader_concat: "filesReader files = concat (map snd files)"
  by (induction files rule: filesReader.induct) simp_all

lemma writtenPaths_staged:
  "writtenPaths (map (stagedWrite env c dir) fs)
     = map (\<lambda>f. Join env dir (if fst f = '''' then cmd_Entry c else fst f)) fs"
  by (induction fs) (simp_all add: stagedWrite_def)

text \<open>
  C9. writeFiles writes the entries of the file collection in the order of the collection:
  the events it adds to the trace are the writes of a prefix of the collection (it stops at
  the first write that fails), and of the whole collection when it returns no error.
  filesReader is the concatenation of the contents in the same order, and it is what a step
  with stdin delivery passes to the process runner as its input.
\<close>

theorem writeFiles_and_filesReader_keep_order:
  "prefix (drop (length tr) (snd (writeFiles env c dir files tr)))
          (map (\<lambda>(name, content).
                  WriteFile (Join env dir (if name = '''' then cmd_Entry c else name)) content) files)
   \<and> (fst (writeFiles env c dir files tr) = None \<longrightarrow>
        snd (writeFiles env c dir files tr) =
          tr @ map (\<lambda>(name, content).
                  WriteFile (Join env dir (if name = '''' then cmd_Entry c else name)) content) files)
   \<and> filesReader files = concat (map snd files)
   \<and> (step_Stdin step \<longrightarrow>
        invocation step req files args =
          RunStdin (step_Timeout step) (step_NOutput step) (concat (map snd files)) (req_ID req)
            ''docker'' args)"
proof -
  have eq: "(\<lambda>(name, content).
                  WriteFile (Join env dir (if name = '''' then cmd_Entry c else name)) content)
        = stagedWrite env c dir"
    by (auto simp add: stagedWrite_def fun_eq_iff)
  obtain k where k: "k \<le> length files"
      "snd (writeFiles env c dir files tr) = tr @ map (stagedWrite env c dir) (take k files)"
      "fst (writeFiles env c dir files tr) = None \<longrightarrow> k = length files"
    using writeFiles_trace [of files env c dir tr] by auto
  have "prefix (map (stagedWrite env c dir) (take k files)) (map (stagedWrite env c dir) files)"
    by (simp add: take_is_prefix map_mono_prefix)
  then show ?thesis
    using k by (simp add: eq filesReader_concat invocation_def)
qed

theorem writeFiles_and_filesReader_keep_order_witness:
  "snd (writeFiles (sample_env (\<lambda>tr ev. ('''', '''', None))) entry_cmd ''/tmp/x''
          [(''a.py'', ''A''), ('''', ''B''), (''c.py'', ''C'')] [])
     = [WriteFile ''/tmp/x/a.py'' ''A'', WriteFile ''/tmp/x/main.py'' ''B'', WriteFile ''/tmp/x/c.py'' ''C'']
   \<and> filesReader [(''a.py'', ''A''), ('''', ''B''), (''c.py'', ''C'')] = ''ABC''
   \<and> invocation exec_step (sample_req '''') [(''a.py'', ''A''), ('''', ''B''), (''c.py'', ''C'')] [''exec'']
       = RunStdin 1 4096 ''ABC'' ''abc123'' ''docker'' [''exec'']"
proof -
  have ok: "fst (writeFiles (sample_env (\<lambda>tr ev. ('''', '''', None))) entry_cmd ''/tmp/x''
          [(''a.py'', ''A''), ('''', ''B''), (''c.py'', ''C'')] []) = None"
    by (simp add: writeFiles_def writeFile1_def sample_env_def)
  have st: "step_Stdin exec_step" by (simp add: exec_step_def)
  show ?thesis
    using writeFiles_and_filesReader_keep_order [of "[]" "sample_env (\<lambda>tr ev. ('''', '''', None))" entry_cmd "''/tmp/x''"
        "[(''a.py'', ''A''), ('''', ''B''), (''c.py'', ''C'')]" exec_step "sample_req ''''" "[''exec'']"] ok st
    by (simp add: sample_env_def entry_cmd_def exec_step_def sample_req_def)
qed

text \<open>
  C8, as amended. writeFiles writes every entry under the path that Join gives for dir and
  the name of the entry, the entry point of the command standing for the empty name. No two
  entries are written under the same path when the names of the collection are pairwise
  different, no entry is named like the entry point while another has the empty name, and
  Join maps different names to different paths.
\<close>

theorem writeFiles_distinct_paths:
  assumes "distinct (map fst files)"
    and "'''' \<in> fst ` set files \<longrightarrow> cmd_Entry c \<notin> fst ` set files"
    and "inj_on (Join env dir) (insert (cmd_Entry c) (fst ` set files))"
  shows "distinct (writtenPaths (drop (length tr) (snd (writeFiles env c dir files tr))))
       \<and> (fst (writeFiles env c dir files tr) = None \<longrightarrow>
            writtenPaths (drop (length tr) (snd (writeFiles env c dir files tr)))
              = map (\<lambda>(name, content). Join env dir (if name = '''' then cmd_Entry c else name)) files)"
proof -
  let ?nm = "\<lambda>f :: string \<times> string. if fst f = '''' then cmd_Entry c else fst f"
  obtain k where k: "k \<le> length files"
      "snd (writeFiles env c dir files tr) = tr @ map (stagedWrite env c dir) (take k files)"
      "fst (writeFiles env c dir files tr) = None \<longrightarrow> k = length files"
    using writeFiles_trace [of files env c dir tr] by auto
  have inj_nm: "inj_on ?nm (set files)"
  proof (rule inj_onI)
    fix f g assume fg: "f \<in> set files" "g \<in> set files" "?nm f = ?nm g"
    have "fst f = fst g"
    proof (cases "fst f = ''''")
      case True
      show ?thesis
      proof (cases "fst g = ''''")
        case True
        with \<open>fst f = ''''\<close> show ?thesis by simp
      next
        case False
        then have "cmd_Entry c = fst g" using fg(3) True by simp
        then show ?thesis using assms(2) fg(1,2) True by (metis imageI)
      qed
    next
      case False
      show ?thesis
      proof (cases "fst g = ''''")
        case True
        then have "cmd_Entry c = fst f" using fg(3) False by simp
        then show ?thesis using assms(2) fg(1,2) True by (metis imageI)
      next
        case False
        with \<open>fst f \<noteq> ''''\<close> fg(3) show ?thesis by simp
      qed
    qed
    moreover have "inj_on fst (set files)" using assms(1) by (simp add: distinct_map)
    ultimately show "f = g" using fg(1,2) by (rule_tac inj_onD)
  qed
  have d1: "distinct files" using assms(1) by (rule distinct_map [THEN iffD1, THEN conjunct1])
  have inj2: "inj_on (Join env dir) (?nm ` set files)"
    using assms(3) by (rule inj_on_subset) auto
  have "inj_on (Join env dir \<circ> ?nm) (set files)"
    using inj_nm inj2 by (rule comp_inj_on)
  then have dist: "distinct (map (\<lambda>f. Join env dir (?nm f)) files)"
    using d1 by (simp only: distinct_map comp_def simp_thms)
  have "distinct (take k (map (\<lambda>f. Join env dir (?nm f)) files))"
    using dist by (rule distinct_take)
  then have "distinct (map (\<lambda>f. Join env dir (?nm f)) (take k files))"
    by (simp add: take_map)
  moreover have "(\<lambda>(name, content). Join env dir (if name = '''' then cmd_Entry c else name))
      = (\<lambda>f. Join env dir (?nm f))"
    by (auto simp add: fun_eq_iff)
  ultimately show ?thesis
    using k by (simp add: writtenPaths_staged)
qed

theorem writeFiles_distinct_paths_witness:
  "writtenPaths (snd (writeFiles (sample_env (\<lambda>tr ev. ('''', '''', None))) entry_cmd ''/tmp/x''
          [('''', ''print(1)''), (''util.py'', ''x = 1'')] []))
       = [''/tmp/x/main.py'', ''/tmp/x/util.py'']
   \<and> distinct (writtenPaths (snd (writeFiles (sample_env (\<lambda>tr ev. ('''', '''', None))) entry_cmd ''/tmp/x''
          [('''', ''print(1)''), (''util.py'', ''x = 1'')] [])))"
proof -
  let ?env = "sample_env (\<lambda>tr ev. ('''', '''', None))"
  let ?files = "[('''', ''print(1)''), (''util.py'', ''x = 1'')]"
  have a: "distinct (map fst ?files)" by simp
  have b: "'''' \<in> fst ` set ?files \<longrightarrow> cmd_Entry entry_cmd \<notin> fst ` set ?files"
    by (simp add: entry_cmd_def)
  have c: "inj_on (Join ?env ''/tmp/x'') (insert (cmd_Entry entry_cmd) (fst ` set ?files))"
    by (simp add: sample_env_def inj_on_def)
  have ok: "fst (writeFiles ?env entry_cmd ''/tmp/x'' ?files []) = None"
    by (simp add: writeFiles_def writeFile1_def sample_env_def)
  show ?thesis
    using writeFiles_distinct_paths [OF a b c, of "[]"] ok
    by (simp add: sample_env_def entry_cmd_def)
qed

text \<open>
  C8 as stated fails: a collection with an entry of the empty name and an entry named
  main.py, for a command whose entry point is main.py, is written twice under the same path.
\<close>

theorem writeFiles_same_path_counterexample:
  "distinct (map fst [('''', ''print(1)''), (''main.py'', ''print(2)'')])
   \<and> writtenPaths (snd (writeFiles (sample_env (\<lambda>tr ev. ('''', '''', None))) entry_cmd ''/tmp/x''
          [('''', ''print(1)''), (''main.py'', ''print(2)'')] []))
       = [''/tmp/x/main.py'', ''/tmp/x/main.py'']
   \<and> \<not> distinct (writtenPaths (snd (writeFiles (sample_env (\<lambda>tr ev. ('''', '''', None))) entry_cmd ''/tmp/x''
          [('''', ''print(1)''), (''main.py'', ''print(2)'')] [])))"
  by (simp add: writeFiles_def writeFile1_def sample_env_def entry_cmd_def)

end
